theory Spec2Isabelle
  imports Main "HOL-Library.Word" "HOL-Library.Signed_Division"
begin

unbundle bit_operations_syntax

section \<open>Constants and enumerations of history.h\<close>

definition PAWN_HISTORY_SIZE :: int where
  "PAWN_HISTORY_SIZE = 512"

definition CORRECTION_HISTORY_SIZE :: int where
  "CORRECTION_HISTORY_SIZE = 32768"

definition CORRECTION_HISTORY_LIMIT :: int where
  "CORRECTION_HISTORY_LIMIT = 1024"

definition LOW_PLY_HISTORY_SIZE :: int where
  "LOW_PLY_HISTORY_SIZE = 5"

datatype PawnHistoryType = Normal | Correction

section \<open>Machine integers\<close>

text \<open>
  \<open>std::int16_t\<close> is the value type \<open>T\<close> of every \<open>StatsEntry\<close> the header instantiates;
  \<open>int\<close> is 32 bits wide. Both are read as two's complement with \<open>sint\<close>.
\<close>

type_synonym int16_t = "16 word"
type_synonym cint = "32 word"

definition INT_MIN :: int where
  "INT_MIN = - (2 ^ 31)"

definition INT_MAX :: int where
  "INT_MAX = 2 ^ 31 - 1"

definition INT16_MAX :: int where
  "INT16_MAX = 32767"

text \<open>An arithmetic result that \<open>int\<close> can hold; outside this range signed arithmetic is undefined.\<close>

definition in_int :: "int \<Rightarrow> bool" where
  "in_int x \<longleftrightarrow> INT_MIN \<le> x \<and> x \<le> INT_MAX"

text \<open>\<open>std::clamp(v, lo, hi)\<close>: \<open>(v < lo) ? lo : (hi < v) ? hi : v\<close>.\<close>

definition std_clamp :: "int \<Rightarrow> int \<Rightarrow> int \<Rightarrow> int" where
  "std_clamp v lo hi = (if v < lo then lo else if hi < v then hi else v)"

section \<open>StatsEntry\<close>

text \<open>
  \<open>template<typename T, int D> class StatsEntry { T entry; ... }\<close> with \<open>T = std::int16_t\<close>.
  The template parameter \<open>D\<close> is the first argument of the operations that use it.
  \<open>static_assert(D <= std::numeric_limits<T>::max())\<close> is \<open>valid_bound\<close>.
\<close>

record StatsEntry =
  entry :: int16_t

definition valid_bound :: "int \<Rightarrow> bool" where
  "valid_bound D \<longleftrightarrow> D \<le> INT16_MAX"

text \<open>\<open>StatsEntry& operator=(const T& v) { entry = v; return *this; }\<close>\<close>

definition operator_assign :: "StatsEntry \<Rightarrow> int16_t \<Rightarrow> StatsEntry" where
  "operator_assign s v = s\<lparr>entry := v\<rparr>"

text \<open>\<open>operator const T&() const { return entry; }\<close>\<close>

definition operator_T :: "StatsEntry \<Rightarrow> int16_t" where
  "operator_T s = entry s"

datatype error = UndefinedBehaviour | AssertionFailed

text \<open>
  The two statements of \<open>operator<<\<close> that change the entry:

  \<^verbatim>\<open>int clampedBonus = std::clamp(bonus, -D, D);\<close>
  \<^verbatim>\<open>entry += clampedBonus - entry * std::abs(clampedBonus) / D;\<close>

  \<open>entry\<close> is promoted to \<open>int\<close>, every operation is an \<open>int\<close> operation (\<open>/\<close> truncates
  towards zero, which is \<open>sdiv\<close>), and the sum is converted back to \<open>T\<close> modulo \<open>2 ^ 16\<close>.
  A result that \<open>int\<close> cannot hold is undefined behaviour, as are \<open>D = 0\<close> (division by
  zero) and \<open>D < 0\<close> (\<open>std::clamp\<close> with \<open>hi < lo\<close>).
\<close>

definition update_entry :: "int \<Rightarrow> StatsEntry \<Rightarrow> cint \<Rightarrow> error + StatsEntry" where
  "update_entry D s bonus =
    (if D \<le> 0 then Inl UndefinedBehaviour
     else
       let clampedBonus = std_clamp (sint bonus) (- D) D;
           product = sint (entry s) * \<bar>clampedBonus\<bar>
       in if \<not> in_int product then Inl UndefinedBehaviour
       else
         let delta = clampedBonus - product sdiv D
         in if \<not> in_int delta then Inl UndefinedBehaviour
         else
           let total = sint (entry s) + delta
           in if \<not> in_int total then Inl UndefinedBehaviour
           else Inr (s\<lparr>entry := word_of_int total\<rparr>))"

text \<open>
  \<open>void operator<<(int bonus)\<close> with assertions enabled: the two statements above, then
  \<open>assert(std::abs(entry) <= D)\<close>. With \<open>NDEBUG\<close> the operator is \<open>update_entry\<close>.
\<close>

definition operator_shl :: "int \<Rightarrow> StatsEntry \<Rightarrow> cint \<Rightarrow> error + StatsEntry" where
  "operator_shl D s bonus =
    (case update_entry D s bonus of
       Inl e \<Rightarrow> Inl e
     | Inr s' \<Rightarrow> if \<bar>sint (entry s')\<bar> \<le> D then Inr s' else Inl AssertionFailed)"

text \<open>A sequence of calls \<open>s << b1; s << b2; ...\<close>, stopping at the first failure.\<close>

fun updates :: "int \<Rightarrow> StatsEntry \<Rightarrow> cint list \<Rightarrow> error + StatsEntry" where
  "updates D s [] = Inr s"
| "updates D s (b # bs) =
     (case operator_shl D s b of Inl e \<Rightarrow> Inl e | Inr s' \<Rightarrow> updates D s' bs)"

text \<open>
  The update rule in the specification's words:
  \<open>entry_new = entry_old + clampedBonus - entry_old * |clampedBonus| / D\<close> on the
  integers, division truncating towards zero, \<open>clampedBonus\<close> the bonus clamped to
  \<open>[-D, D]\<close>.
\<close>

definition spec_update :: "int \<Rightarrow> int \<Rightarrow> int \<Rightarrow> int" where
  "spec_update D entry_old bonus =
     (let clampedBonus = std_clamp bonus (- D) D
      in entry_old + clampedBonus - (entry_old * \<bar>clampedBonus\<bar>) sdiv D)"

section \<open>Table catalog\<close>

text \<open>
  The named instantiations of \<open>StatsEntry<std::int16_t, D>\<close> in the header and the bound
  \<open>D\<close> of each. \<open>ContinuationHistory\<close> is a table of \<open>PieceToHistory\<close> tables; every
  \<open>CorrectionHistory<T>\<close> has the bound \<open>CORRECTION_HISTORY_LIMIT\<close>.
\<close>

datatype StatsTable =
    ButterflyHistory | LowPlyHistory | CapturePieceToHistory | PieceToHistory
  | PawnHistory | KnightHistory | CorrectionHistory | TTMoveHistory

fun bound_D :: "StatsTable \<Rightarrow> int" where
  "bound_D ButterflyHistory = 7183"
| "bound_D LowPlyHistory = 7183"
| "bound_D CapturePieceToHistory = 10692"
| "bound_D PieceToHistory = 30000"
| "bound_D PawnHistory = 8192"
| "bound_D KnightHistory = 5000"
| "bound_D CorrectionHistory = CORRECTION_HISTORY_LIMIT"
| "bound_D TTMoveHistory = 8192"

section \<open>Feature index functions\<close>

type_synonym Key = "64 word"
type_synonym Bitboard = "64 word"

datatype Color = WHITE | BLACK

text \<open>
  \<open>Position\<close> (position.h) is read only through \<open>pawn_key()\<close>, \<open>minor_piece_key()\<close> and
  \<open>non_pawn_key(c)\<close>; the record holds what these three return.
\<close>

record Position =
  pawn_key :: Key
  minor_piece_key :: Key
  non_pawn_key :: "Color \<Rightarrow> Key"

text \<open>
  The functions compute \<open>key & (SIZE - 1)\<close> in \<open>uint64_t\<close> (the \<open>int\<close> mask is converted
  to 64 bits) and return it as \<open>int\<close>: the value modulo \<open>2 ^ 32\<close>, read as two's complement.
\<close>

definition to_int :: "64 word \<Rightarrow> int" where
  "to_int k = sint (ucast k :: cint)"

definition pawn_structure_index :: "PawnHistoryType \<Rightarrow> Position \<Rightarrow> int" where
  "pawn_structure_index T pos =
     to_int (pawn_key pos AND
       word_of_int ((if T = Normal then PAWN_HISTORY_SIZE else CORRECTION_HISTORY_SIZE) - 1))"

definition minor_piece_index :: "Position \<Rightarrow> int" where
  "minor_piece_index pos =
     to_int (minor_piece_key pos AND word_of_int (CORRECTION_HISTORY_SIZE - 1))"

definition non_pawn_index :: "Color \<Rightarrow> Position \<Rightarrow> int" where
  "non_pawn_index c pos =
     to_int (non_pawn_key pos c AND word_of_int (CORRECTION_HISTORY_SIZE - 1))"

text \<open>
  \<open>constexpr uint64_t KnightMagic[64]\<close>, one constant for each origin square.
\<close>

definition KnightMagic :: "64 word list" where
  "KnightMagic =
    [2649526798775546678, 4152603468059905820, 4323738553495348598,
     8358822318513263564, 8233741379241091944, 15862258506660595117,
     11034153426427387283, 5179342299017078485, 13953775647861833869,
     9285332830472462433, 4707670090173510570, 633188408852161521,
     9295575317119436597, 2602449537074926626, 10402735044161298543,
     5209354341409342328, 162625749878507151, 1009651158123930541,
     17868030413482491775, 18157387793351835647, 18428448182976380927,
     15559866339509124062, 15570116201671053920, 1155280919795624321,
     2486129120195482830, 13187947271813240921, 18406210577484414942,
     18427602675714473387, 18441114298743767039, 13816761900458831871,
     6080440195611631637, 17058553541789489427, 16801810908685894692,
     10863528935562739968, 18302056847512170491, 13832238890018011135,
     18441604947771359199, 4539399656176549631, 10034574284689510417,
     6922771568222818337, 4170423972204183689, 13981410758149154305,
     1458212938463817744, 14940013606182964225, 10126812077910748164,
     14499197477661460225, 10889334102842943525, 11449759955925008433,
     7662239901190162178, 10624671891104776129, 17829790316069208625,
     834552698710835841, 1569976736693633153, 18290846858870916161,
     12326740164105761617, 5482981632183385993, 9386590720569999446,
     5202246693298479759, 15779688972541825106, 13366487713771978889,
     11198365102992539725, 15043574735303614497, 18334953575009493081,
     975649118817374295]"

text \<open>
  \<open>inline int knight_attack_index(Bitboard target, Square from)
  { return (target*KnightMagic[from])>>56; }\<close>

  \<open>Square\<close> is an enumeration over \<open>int\<close> whose values 0 .. 63 are the squares a1 .. h8;
  the array has 64 elements, so any other value reads out of bounds (\<open>None\<close>). The product
  is taken modulo \<open>2 ^ 64\<close>, shifted right and returned as \<open>int\<close>.
\<close>

definition knight_attack_index :: "Bitboard \<Rightarrow> nat \<Rightarrow> int option" where
  "knight_attack_index target from_sq =
     (if from_sq < 64 then Some (to_int (drop_bit 56 (target * KnightMagic ! from_sq)))
      else None)"

text \<open>
  Modelled from the spec: the knight-attack destination sets come from bitboard.h, which is
  not among the sources. The specification speaks of the "squares reachable by a knight
  from originSquare": the squares of the board one knight step away, a square being
  \<open>8 * rank + file\<close>. A bitboard has bit \<open>s\<close> set for each square \<open>s\<close> of the set.
\<close>

definition knight_steps :: "(int \<times> int) list" where
  "knight_steps = [(1, 2), (2, 1), (- 1, 2), (- 2, 1), (1, - 2), (2, - 1), (- 1, - 2), (- 2, - 1)]"

text \<open>Modelled from the spec: a (file, rank) pair that is a square of the 8 by 8 board.\<close>

definition on_board :: "int \<times> int \<Rightarrow> bool" where
  "on_board p \<longleftrightarrow> 0 \<le> fst p \<and> fst p < 8 \<and> 0 \<le> snd p \<and> snd p < 8"

text \<open>Modelled from the spec: the squares a knight on \<open>sq\<close> reaches.\<close>

definition knight_destinations :: "nat \<Rightarrow> nat list" where
  "knight_destinations sq =
     map (\<lambda>p. nat (8 * snd p + fst p))
       (filter on_board
         (map (\<lambda>d. (int (sq mod 8) + fst d, int (sq div 8) + snd d)) knight_steps))"

text \<open>Modelled from the spec: the bitboard of one square, and of a knight's destinations.\<close>

definition square_bb :: "nat \<Rightarrow> Bitboard" where
  "square_bb s = push_bit s 1"

definition knight_attacks_bb :: "nat \<Rightarrow> Bitboard" where
  "knight_attacks_bb sq = fold (\<lambda>s b. b OR square_bb s) (knight_destinations sq) 0"

text \<open>The squares of \<open>t\<close> are among those of \<open>a\<close>.\<close>

definition subset_bb :: "Bitboard \<Rightarrow> Bitboard \<Rightarrow> bool" where
  "subset_bb t a \<longleftrightarrow> t AND a = t"

section \<open>Multi-dimensional tables\<close>

text \<open>
  Modelled from the spec: \<open>MultiArray\<close> (misc.h) is not among the sources;
  \<open>Stats<T, D, Sizes...>\<close> is \<open>MultiArray<StatsEntry<T, D>, Sizes...>\<close>. The specification
  (4.2) describes a fixed-shape array of counter cells: construction allocates
  \<open>sizes[0] * sizes[1] * ...\<close> cells; \<open>Index(coords...)\<close> gives the cell at a coordinate
  tuple in row-major order (the last dimension varies fastest), coordinates out of bounds
  being a precondition violation. A cell is a \<open>StatsEntry\<close>: it is assigned and read by
  the operators of the source.
\<close>

record Stats =
  sizes :: "nat list"
  cells :: "StatsEntry list"

text \<open>Modelled from the spec: the table holds \<open>sizes[0] * sizes[1] * ...\<close> cells.\<close>

definition allocated :: "Stats \<Rightarrow> bool" where
  "allocated t \<longleftrightarrow> length (cells t) = prod_list (sizes t)"

text \<open>
  Modelled from the spec: a coordinate tuple within the declared bounds has one coordinate
  for each dimension, each below its size.
\<close>

fun in_bounds :: "nat list \<Rightarrow> nat list \<Rightarrow> bool" where
  "in_bounds [] [] \<longleftrightarrow> True"
| "in_bounds (n # ns) (c # cs) \<longleftrightarrow> c < n \<and> in_bounds ns cs"
| "in_bounds _ _ \<longleftrightarrow> False"

text \<open>Modelled from the spec: the row-major position of a tuple, last dimension fastest.\<close>

fun offset :: "nat list \<Rightarrow> nat list \<Rightarrow> nat" where
  "offset (n # ns) (c # cs) = c * prod_list ns + offset ns cs"
| "offset _ _ = 0"

text \<open>
  Modelled from the spec: "Construct: allocate \<open>sizes[0] * sizes[1] * ...\<close> cells, default
  value zero" (4.2); a counter is "default-constructed to zero inside its owning table at
  table-allocation time" (3). \<open>StatsEntry\<close> declares no constructor, so the zero of a cell
  is the zero-initialisation of its \<open>entry\<close>.
\<close>

definition construct :: "nat list \<Rightarrow> Stats" where
  "construct ns = \<lparr>sizes = ns, cells = replicate (prod_list ns) \<lparr>entry = 0\<rparr>\<rparr>"

text \<open>
  Modelled from the spec: \<open>Index(coords...)\<close>, the cell at a coordinate tuple; a tuple out
  of bounds violates the precondition (\<open>None\<close>).
\<close>

definition cell_at :: "Stats \<Rightarrow> nat list \<Rightarrow> StatsEntry option" where
  "cell_at t cs =
     (if in_bounds (sizes t) cs then Some (cells t ! offset (sizes t) cs) else None)"

text \<open>
  Modelled from the spec: reading a cell, \<open>T v = table[c0][c1]...\<close>, which goes through the
  conversion operator of the source.
\<close>

definition read_at :: "Stats \<Rightarrow> nat list \<Rightarrow> int16_t option" where
  "read_at t cs = map_option operator_T (cell_at t cs)"

text \<open>
  Modelled from the spec: writing a cell, \<open>table[c0][c1]... = v\<close>, which goes through the
  assignment operator of the source.
\<close>

definition assign_at :: "Stats \<Rightarrow> nat list \<Rightarrow> int16_t \<Rightarrow> Stats option" where
  "assign_at t cs v =
     (case cell_at t cs of
        None \<Rightarrow> None
      | Some e \<Rightarrow> Some (t\<lparr>cells := (cells t)[offset (sizes t) cs := operator_assign e v]\<rparr>))"

text \<open>
  Every coordinate tuple within the sizes, and the writes \<open>table[cs] = f cs\<close> for the tuples
  \<open>cs\<close> of a list, one after the other.
\<close>

fun all_coords :: "nat list \<Rightarrow> nat list list" where
  "all_coords [] = [[]]"
| "all_coords (n # ns) = concat (map (\<lambda>c. map ((#) c) (all_coords ns)) [0..<n])"

fun write_all :: "(nat list \<Rightarrow> int16_t) \<Rightarrow> nat list list \<Rightarrow> Stats \<Rightarrow> Stats option" where
  "write_all f [] t = Some t"
| "write_all f (cs # css) t =
     (case assign_at t cs (f cs) of None \<Rightarrow> None | Some t' \<Rightarrow> write_all f css t')"

section \<open>The update rule on the integers\<close>

lemma div_lower:
  fixes x y D :: int
  assumes "0 < D" "0 \<le> x" "x \<le> D" "0 \<le> y" "y \<le> D"
  shows "x + y - D \<le> x * y div D"
proof -
  have "0 \<le> (D - x) * (D - y)"
    using assms by simp
  then have "D * (x + y - D) \<le> x * y"
    by (simp add: algebra_simps)
  then have "(x + y - D) * D div D \<le> x * y div D"
    using assms(1) by (intro zdiv_mono1) (simp_all add: mult.commute)
  then show ?thesis
    using assms(1) by simp
qed

lemma div_upper:
  fixes x y D :: int
  assumes "0 < D" "0 \<le> x" "0 \<le> y" "y \<le> D"
  shows "x * y div D \<le> x" and "0 \<le> x * y div D"
proof -
  have "x * y \<le> x * D"
    using assms by (simp add: mult_left_mono)
  then have "x * y div D \<le> x * D div D"
    using assms(1) by (intro zdiv_mono1) simp_all
  then show "x * y div D \<le> x"
    using assms(1) by simp
  show "0 \<le> x * y div D"
    using assms by (simp add: pos_imp_zdiv_nonneg_iff)
qed

lemma sdiv_pos:
  fixes a D :: int
  assumes "0 < D"
  shows "a sdiv D = (if 0 \<le> a then a div D else - ((- a) div D))"
  using assms by (auto simp: signed_divide_int_def sgn_if)

lemma rule_bounded:
  fixes e c D :: int
  assumes D: "0 < D" and e: "\<bar>e\<bar> \<le> D" and c: "\<bar>c\<bar> \<le> D"
  shows "\<bar>e + c - (e * \<bar>c\<bar>) sdiv D\<bar> \<le> D"
proof (cases "0 \<le> e")
  case True
  then have nn: "0 \<le> e * \<bar>c\<bar>" by simp
  have q: "(e * \<bar>c\<bar>) sdiv D = e * \<bar>c\<bar> div D"
    using D nn by (simp add: sdiv_pos)
  have lo: "e + \<bar>c\<bar> - D \<le> e * \<bar>c\<bar> div D"
    using div_lower [of D e "\<bar>c\<bar>"] D e c True by simp
  have up: "e * \<bar>c\<bar> div D \<le> e" "0 \<le> e * \<bar>c\<bar> div D"
    using div_upper [of D e "\<bar>c\<bar>"] D c True by simp_all
  show ?thesis
    using q lo up e c True by (cases "0 \<le> c") simp_all
next
  case False
  define x where "x = - e"
  have x: "0 < x" "x \<le> D" "e = - x"
    using False e by (simp_all add: x_def)
  have q: "(e * \<bar>c\<bar>) sdiv D = - (x * \<bar>c\<bar> div D)"
  proof (cases "c = 0")
    case True
    then show ?thesis by simp
  next
    case False
    then have "e * \<bar>c\<bar> < 0"
      using x by (simp add: mult_less_0_iff)
    then show ?thesis
      using D x by (simp add: sdiv_pos)
  qed
  have lo: "x + \<bar>c\<bar> - D \<le> x * \<bar>c\<bar> div D"
    using div_lower [of D x "\<bar>c\<bar>"] D x c by simp
  have up: "x * \<bar>c\<bar> div D \<le> x" "0 \<le> x * \<bar>c\<bar> div D"
    using div_upper [of D x "\<bar>c\<bar>"] D c x by simp_all
  show ?thesis
    using q lo up x c by (cases "0 \<le> c") simp_all
qed

lemma clamp_abs: "0 < D \<Longrightarrow> \<bar>std_clamp v (- D) D\<bar> \<le> D"
  by (auto simp: std_clamp_def)

lemma sdiv_abs_le:
  fixes a D :: int
  assumes "0 < D"
  shows "\<bar>a sdiv D\<bar> \<le> \<bar>a\<bar>"
proof -
  have "\<bar>a sdiv D\<bar> = \<bar>a\<bar> div D"
    using assms by (auto simp: signed_divide_int_def sgn_if pos_imp_zdiv_nonneg_iff)
  also have "\<dots> \<le> \<bar>a\<bar>"
    using assms by (simp add: div_by_1 zdiv_mono2 [of "\<bar>a\<bar>" 1 D, simplified])
  finally show ?thesis .
qed

lemma sint16_abs: "\<bar>sint (w :: int16_t)\<bar> \<le> 32768"
  using sint_ge [of w] sint_lt [of w] by simp

lemma product_small:
  fixes e c :: int
  assumes "\<bar>e\<bar> \<le> 32768" "\<bar>c\<bar> \<le> 32767"
  shows "\<bar>e * \<bar>c\<bar>\<bar> \<le> 1073709056"
proof -
  have "\<bar>e\<bar> * \<bar>c\<bar> \<le> 32768 * 32767"
    using assms by (intro mult_mono) simp_all
  then show ?thesis by (simp add: abs_mult)
qed

lemma intermediates_in_int:
  fixes e :: int16_t and bonus :: cint
  assumes D: "0 < D" "D \<le> 32767"
  defines "c \<equiv> std_clamp (sint bonus) (- D) D"
  shows "in_int (sint e * \<bar>c\<bar>)"
    and "in_int (c - (sint e * \<bar>c\<bar>) sdiv D)"
    and "in_int (sint e + (c - (sint e * \<bar>c\<bar>) sdiv D))"
proof -
  define p where "p = sint e * \<bar>c\<bar>"
  have c: "\<bar>c\<bar> \<le> 32767"
    using clamp_abs [of D "sint bonus"] D by (simp add: c_def)
  have e: "\<bar>sint e\<bar> \<le> 32768"
    by (rule sint16_abs)
  have p: "\<bar>p\<bar> \<le> 1073709056"
    unfolding p_def using e c by (rule product_small)
  have q: "\<bar>p sdiv D\<bar> \<le> 1073709056"
    using sdiv_abs_le [of D p] D p by simp
  show "in_int (sint e * \<bar>c\<bar>)"
    using p unfolding p_def in_int_def INT_MIN_def INT_MAX_def by (simp; arith)
  show "in_int (c - (sint e * \<bar>c\<bar>) sdiv D)"
    using c q unfolding p_def in_int_def INT_MIN_def INT_MAX_def by (simp; arith)
  show "in_int (sint e + (c - (sint e * \<bar>c\<bar>) sdiv D))"
    using c q e unfolding p_def in_int_def INT_MIN_def INT_MAX_def by (simp; arith)
qed

lemma update_entry_no_overflow:
  assumes D: "0 < D" "D \<le> 32767"
  shows "update_entry D s bonus =
    Inr (s\<lparr>entry := word_of_int (spec_update D (sint (entry s)) (sint bonus))\<rparr>)"
  using D intermediates_in_int [OF D, where e = "entry s" and bonus = bonus]
  by (simp add: update_entry_def spec_update_def Let_def)

lemma sint16_of_int:
  fixes x :: int
  assumes "\<bar>x\<bar> \<le> 32767"
  shows "sint (word_of_int x :: int16_t) = x"
  using assms by (simp add: signed_of_int signed_take_bit_int_eq_self)

lemma spec_update_bounded:
  assumes "0 < D" "\<bar>e\<bar> \<le> D"
  shows "\<bar>spec_update D e b\<bar> \<le> D"
  using assms rule_bounded [of D e "std_clamp b (- D) D"] clamp_abs [of D b]
  by (simp add: spec_update_def Let_def)

section \<open>Properties of the counter update\<close>

text \<open>
  C1 (saturation invariant): for a positive bound \<open>D\<close> that the value type can hold, a
  stored value of magnitude at most \<open>D\<close> and any \<open>int\<close> bonus, \<open>operator<<\<close> returns
  normally (no undefined behaviour, the assertion holds), the new value is the one the
  update rule gives, and its magnitude is at most \<open>D\<close>.
\<close>

theorem saturation_invariant:
  assumes "0 < D" and "valid_bound D" and "\<bar>sint (entry s)\<bar> \<le> D"
  shows "\<exists>s'. operator_shl D s bonus = Inr s'
           \<and> sint (entry s') = spec_update D (sint (entry s)) (sint bonus)
           \<and> \<bar>sint (entry s')\<bar> \<le> D"
proof -
  let ?v = "spec_update D (sint (entry s)) (sint bonus)"
  have D: "D \<le> 32767"
    using assms(2) by (simp add: valid_bound_def INT16_MAX_def)
  have b: "\<bar>?v\<bar> \<le> D"
    using assms(1,3) by (rule spec_update_bounded)
  then have r: "sint (word_of_int ?v :: int16_t) = ?v"
    using D by (intro sint16_of_int) simp
  show ?thesis
    using b r by (simp add: operator_shl_def update_entry_no_overflow [OF assms(1) D])
qed

theorem saturation_invariant_witness:
  "0 < (100::int) \<and> valid_bound 100 \<and> \<bar>sint (entry \<lparr>entry = 75\<rparr>)\<bar> \<le> 100
   \<and> (\<exists>s'. operator_shl 100 \<lparr>entry = 75\<rparr> (- 200) = Inr s'
           \<and> sint (entry s') = spec_update 100 (sint (entry \<lparr>entry = 75\<rparr>)) (sint (- 200 :: cint))
           \<and> \<bar>sint (entry s')\<bar> \<le> 100)"
proof -
  have h1: "0 < (100::int)" by simp
  have h2: "valid_bound 100" by (simp add: valid_bound_def INT16_MAX_def)
  have h3: "\<bar>sint (entry \<lparr>entry = 75\<rparr>)\<bar> \<le> 100" by simp
  show ?thesis
    using h1 h2 h3 saturation_invariant [OF h1 h2 h3, of "- 200"] by simp
qed

lemma sdiv_mult_self:
  fixes e D :: int
  assumes "0 < D"
  shows "(e * D) sdiv D = e"
  using assms by (simp add: signed_divide_int_def abs_mult sgn_mult mult_sgn_abs)

lemma spec_update_zero: "0 < D \<Longrightarrow> spec_update D e 0 = e"
  by (simp add: spec_update_def std_clamp_def)

lemma spec_update_top: "0 < D \<Longrightarrow> D \<le> b \<Longrightarrow> spec_update D e b = D"
  by (simp add: spec_update_def std_clamp_def sdiv_mult_self)

lemma spec_update_bottom: "0 < D \<Longrightarrow> b \<le> - D \<Longrightarrow> spec_update D e b = - D"
  by (auto simp: spec_update_def std_clamp_def sdiv_mult_self)

text \<open>
  C3 (zero bonus): for a positive bound and any stored value, the update with bonus 0
  stores the value it found; with assertions enabled the operator then returns normally
  exactly when that value was within the bound.
\<close>

theorem zero_bonus_no_op:
  assumes "0 < D"
  shows "update_entry D s 0 = Inr s
       \<and> operator_shl D s 0 = (if \<bar>sint (entry s)\<bar> \<le> D then Inr s else Inl AssertionFailed)"
proof -
  have "in_int (sint (entry s))"
    using sint16_abs [of "entry s"] unfolding in_int_def INT_MIN_def INT_MAX_def by (simp; arith)
  then have "update_entry D s 0 = Inr s"
    using assms by (simp add: update_entry_def std_clamp_def in_int_def INT_MIN_def INT_MAX_def)
  then show ?thesis
    by (simp add: operator_shl_def)
qed

theorem zero_bonus_no_op_witness:
  "0 < (100::int) \<and> update_entry 100 \<lparr>entry = - 42\<rparr> 0 = Inr \<lparr>entry = - 42\<rparr>
   \<and> operator_shl 100 \<lparr>entry = - 42\<rparr> 0 = Inr \<lparr>entry = - 42\<rparr>"
proof -
  have h: "0 < (100::int)" by simp
  show ?thesis
    using h zero_bonus_no_op [OF h, of "\<lparr>entry = - 42\<rparr>"] by simp
qed

text \<open>
  C5 (scenario): with \<open>D = 100\<close>, starting at 0, the bonuses 50, 50 and -200 give the
  values 50, 75 and -100.
\<close>

theorem scenario_D100:
  "operator_shl 100 \<lparr>entry = 0\<rparr> 50 = Inr \<lparr>entry = 50\<rparr>
   \<and> operator_shl 100 \<lparr>entry = 50\<rparr> 50 = Inr \<lparr>entry = 75\<rparr>
   \<and> operator_shl 100 \<lparr>entry = 75\<rparr> (- 200) = Inr \<lparr>entry = - 100\<rparr>
   \<and> updates 100 \<lparr>entry = 0\<rparr> [50, 50, - 200] = Inr \<lparr>entry = - 100\<rparr>"
  by (simp add: operator_shl_def update_entry_def std_clamp_def in_int_def INT_MIN_def INT_MAX_def
      signed_divide_int_def)

lemma operator_shl_eq:
  assumes D: "0 < D" "D \<le> 32767"
    and v: "\<bar>spec_update D (sint (entry s)) (sint bonus)\<bar> \<le> D"
  shows "\<exists>s'. operator_shl D s bonus = Inr s'
           \<and> sint (entry s') = spec_update D (sint (entry s)) (sint bonus)"
proof -
  let ?v = "spec_update D (sint (entry s)) (sint bonus)"
  have r: "sint (word_of_int ?v :: int16_t) = ?v"
    using D v by (intro sint16_of_int) simp
  show ?thesis
    using v r by (simp add: operator_shl_def update_entry_no_overflow [OF D])
qed

text \<open>
  C10 (one-step saturation): for a positive valid bound and a stored value within it, one
  update with a bonus of at least \<open>D\<close> stores exactly \<open>D\<close>, and one with a bonus of at
  most \<open>-D\<close> stores exactly \<open>-D\<close>.
\<close>

theorem one_step_saturation:
  assumes "0 < D" and "valid_bound D" and "\<bar>sint (entry s)\<bar> \<le> D"
  shows "(D \<le> sint bonus \<longrightarrow>
            (\<exists>s'. operator_shl D s bonus = Inr s' \<and> sint (entry s') = D))
       \<and> (sint bonus \<le> - D \<longrightarrow>
            (\<exists>s'. operator_shl D s bonus = Inr s' \<and> sint (entry s') = - D))"
proof -
  have D: "D \<le> 32767"
    using assms(2) by (simp add: valid_bound_def INT16_MAX_def)
  have top: "\<exists>s'. operator_shl D s bonus = Inr s' \<and> sint (entry s') = D"
    if "D \<le> sint bonus"
    using operator_shl_eq [OF assms(1) D, of s bonus] that assms(1)
    by (simp add: spec_update_top)
  have bottom: "\<exists>s'. operator_shl D s bonus = Inr s' \<and> sint (entry s') = - D"
    if "sint bonus \<le> - D"
    using operator_shl_eq [OF assms(1) D, of s bonus] that assms(1)
    by (simp add: spec_update_bottom)
  show ?thesis
    using top bottom by blast
qed

theorem one_step_saturation_witness:
  "0 < (100::int) \<and> valid_bound 100 \<and> \<bar>sint (entry \<lparr>entry = - 30\<rparr>)\<bar> \<le> 100
   \<and> 100 \<le> sint (250 :: cint) \<and> sint (- 250 :: cint) \<le> - 100
   \<and> (\<exists>s'. operator_shl 100 \<lparr>entry = - 30\<rparr> 250 = Inr s' \<and> sint (entry s') = 100)
   \<and> (\<exists>s'. operator_shl 100 \<lparr>entry = - 30\<rparr> (- 250) = Inr s' \<and> sint (entry s') = - 100)"
proof -
  have h1: "0 < (100::int)" by simp
  have h2: "valid_bound 100" by (simp add: valid_bound_def INT16_MAX_def)
  have h3: "\<bar>sint (entry \<lparr>entry = - 30\<rparr>)\<bar> \<le> 100" by simp
  have h4: "100 \<le> sint (250 :: cint)" by simp
  have h5: "sint (- 250 :: cint) \<le> - 100" by simp
  show ?thesis
    using h1 h2 h3 h4 h5 one_step_saturation [OF h1 h2 h3, of 250]
      one_step_saturation [OF h1 h2 h3, of "- 250"]
    by simp
qed

lemma sint32_of_int:
  fixes x :: int
  assumes "\<bar>x\<bar> \<le> 32767"
  shows "sint (word_of_int x :: cint) = x"
  using assms by (simp add: signed_of_int signed_take_bit_int_eq_self)

lemma updates_top:
  assumes D: "0 < D" "D \<le> 32767" and b: "D \<le> sint b"
  shows "\<exists>a. updates D s (replicate (Suc n) b) = Inr a \<and> sint (entry a) = D"
proof (induction n arbitrary: s)
  case 0
  show ?case
    using operator_shl_eq [OF D, of s b] D b by (auto simp: spec_update_top)
next
  case (Suc n)
  obtain s' where "operator_shl D s b = Inr s'"
    using operator_shl_eq [OF D, of s b] D b by (auto simp: spec_update_top)
  then show ?case
    using Suc.IH [of s'] by simp
qed

lemma updates_bottom:
  assumes D: "0 < D" "D \<le> 32767" and b: "sint b \<le> - D"
  shows "\<exists>a. updates D s (replicate (Suc n) b) = Inr a \<and> sint (entry a) = - D"
proof (induction n arbitrary: s)
  case 0
  show ?case
    using operator_shl_eq [OF D, of s b] D b by (auto simp: spec_update_bottom)
next
  case (Suc n)
  obtain s' where "operator_shl D s b = Inr s'"
    using operator_shl_eq [OF D, of s b] D b by (auto simp: spec_update_bottom)
  then show ?case
    using Suc.IH [of s'] by simp
qed

text \<open>
  C4 (monotone convergence at the bound): for a positive valid bound and a starting value
  within it, the values after \<open>n\<close> and after \<open>n + 1\<close> updates with bonus \<open>+D\<close> are in
  non-decreasing order and at most \<open>D\<close>, and equal \<open>D\<close> from the first update on; with
  bonus \<open>-D\<close> they are in non-increasing order, at least \<open>-D\<close>, and equal \<open>-D\<close> from
  the first update on.
\<close>

theorem monotone_convergence:
  assumes "0 < D" and "valid_bound D" and "\<bar>sint (entry s)\<bar> \<le> D"
  shows "(\<exists>a b. updates D s (replicate n (word_of_int D)) = Inr a
            \<and> updates D s (replicate (Suc n) (word_of_int D)) = Inr b
            \<and> sint (entry a) \<le> sint (entry b) \<and> sint (entry b) \<le> D
            \<and> (0 < n \<longrightarrow> sint (entry a) = D) \<and> sint (entry b) = D)
       \<and> (\<exists>a b. updates D s (replicate n (word_of_int (- D))) = Inr a
            \<and> updates D s (replicate (Suc n) (word_of_int (- D))) = Inr b
            \<and> sint (entry b) \<le> sint (entry a) \<and> - D \<le> sint (entry b)
            \<and> (0 < n \<longrightarrow> sint (entry a) = - D) \<and> sint (entry b) = - D)"
proof -
  have D: "D \<le> 32767"
    using assms(2) by (simp add: valid_bound_def INT16_MAX_def)
  have pos: "D \<le> sint (word_of_int D :: cint)"
    using sint32_of_int [of D] D assms(1) by simp
  have neg: "sint (word_of_int (- D) :: cint) \<le> - D"
    using sint32_of_int [of "- D"] D assms(1) by simp
  have up: "\<exists>a b. updates D s (replicate n b0) = Inr a
            \<and> updates D s (replicate (Suc n) b0) = Inr b
            \<and> sint (entry a) \<le> sint (entry b) \<and> sint (entry b) \<le> D
            \<and> (0 < n \<longrightarrow> sint (entry a) = D) \<and> sint (entry b) = D"
    if b0: "D \<le> sint b0" for b0
  proof (cases n)
    case 0
    then show ?thesis
      using updates_top [OF assms(1) D b0, of s 0] assms(3) by auto
  next
    case (Suc m)
    then show ?thesis
      using updates_top [OF assms(1) D b0, of s m] updates_top [OF assms(1) D b0, of s "Suc m"]
      by auto
  qed
  have down: "\<exists>a b. updates D s (replicate n b0) = Inr a
            \<and> updates D s (replicate (Suc n) b0) = Inr b
            \<and> sint (entry b) \<le> sint (entry a) \<and> - D \<le> sint (entry b)
            \<and> (0 < n \<longrightarrow> sint (entry a) = - D) \<and> sint (entry b) = - D"
    if b0: "sint b0 \<le> - D" for b0
  proof (cases n)
    case 0
    then show ?thesis
      using updates_bottom [OF assms(1) D b0, of s 0] assms(3) by auto
  next
    case (Suc m)
    then show ?thesis
      using updates_bottom [OF assms(1) D b0, of s m]
        updates_bottom [OF assms(1) D b0, of s "Suc m"]
      by auto
  qed
  show ?thesis
    using up [OF pos] down [OF neg] by blast
qed

theorem monotone_convergence_witness:
  "0 < (100::int) \<and> valid_bound 100 \<and> \<bar>sint (entry \<lparr>entry = - 30\<rparr>)\<bar> \<le> 100 \<and> (0::nat) < 2
   \<and> (\<exists>a b. updates 100 \<lparr>entry = - 30\<rparr> (replicate 2 (word_of_int 100)) = Inr a
            \<and> updates 100 \<lparr>entry = - 30\<rparr> (replicate (Suc 2) (word_of_int 100)) = Inr b
            \<and> sint (entry a) \<le> sint (entry b) \<and> sint (entry b) \<le> 100
            \<and> sint (entry a) = 100 \<and> sint (entry b) = 100)
   \<and> (\<exists>a b. updates 100 \<lparr>entry = - 30\<rparr> (replicate 2 (word_of_int (- 100))) = Inr a
            \<and> updates 100 \<lparr>entry = - 30\<rparr> (replicate (Suc 2) (word_of_int (- 100))) = Inr b
            \<and> sint (entry b) \<le> sint (entry a) \<and> - 100 \<le> sint (entry b)
            \<and> sint (entry a) = - 100 \<and> sint (entry b) = - 100)"
proof -
  have h1: "0 < (100::int)" by simp
  have h2: "valid_bound 100" by (simp add: valid_bound_def INT16_MAX_def)
  have h3: "\<bar>sint (entry \<lparr>entry = - 30\<rparr>)\<bar> \<le> 100" by simp
  have h4: "(0::nat) < 2" by simp
  show ?thesis
    using h1 h2 h3 h4 monotone_convergence [OF h1 h2 h3, of 2] by simp
qed

text \<open>
  C9 (no intermediate overflow): for every table of the catalog, a stored value within
  the table's bound and any \<open>int\<close> bonus, the product, the difference and the sum computed
  by the update are within the range of \<open>int\<close>, and the sum is within the range of
  \<open>std::int16_t\<close>, so the value stored is the sum itself.
\<close>

theorem catalog_no_overflow:
  assumes "\<bar>sint (entry s)\<bar> \<le> bound_D t"
  shows "let D = bound_D t;
             e = sint (entry s);
             c = std_clamp (sint bonus) (- D) D;
             total = e + (c - (e * \<bar>c\<bar>) sdiv D)
         in valid_bound D
          \<and> in_int (e * \<bar>c\<bar>) \<and> in_int (c - (e * \<bar>c\<bar>) sdiv D) \<and> in_int total
          \<and> - 32768 \<le> total \<and> total \<le> 32767
          \<and> update_entry D s bonus = Inr (s\<lparr>entry := word_of_int total\<rparr>)
          \<and> sint (word_of_int total :: int16_t) = total"
proof -
  have D: "0 < bound_D t" "bound_D t \<le> 32767"
    by (cases t; simp add: CORRECTION_HISTORY_LIMIT_def)+
  let ?v = "spec_update (bound_D t) (sint (entry s)) (sint bonus)"
  have v: "\<bar>?v\<bar> \<le> bound_D t"
    using D(1) assms by (rule spec_update_bounded)
  have r: "sint (word_of_int ?v :: int16_t) = ?v"
    using D v by (intro sint16_of_int) simp
  have vb: "valid_bound (bound_D t)"
    using D by (simp add: valid_bound_def INT16_MAX_def)
  have rng: "- 32768 \<le> ?v \<and> ?v \<le> 32767"
    using v D by arith
  show ?thesis
    using vb r rng intermediates_in_int [OF D, where e = "entry s" and bonus = bonus]
      update_entry_no_overflow [OF D, of s bonus]
    by (simp add: Let_def spec_update_def add_diff_eq)
qed

theorem catalog_no_overflow_witness:
  "\<bar>sint (entry \<lparr>entry = - 30000\<rparr>)\<bar> \<le> bound_D PieceToHistory
   \<and> in_int (- 30000 * 29999) \<and> in_int (29999 - (- 30000 * 29999) sdiv 30000)
   \<and> update_entry 30000 \<lparr>entry = - 30000\<rparr> 29999 = Inr \<lparr>entry = 29998\<rparr>"
proof -
  have h: "\<bar>sint (entry \<lparr>entry = - 30000\<rparr>)\<bar> \<le> bound_D PieceToHistory" by simp
  show ?thesis
    using h catalog_no_overflow [OF h, of 29999]
    by (simp add: Let_def std_clamp_def signed_divide_int_def)
qed

section \<open>Properties of the masking index functions\<close>

lemma to_int_small:
  assumes "uint k < 2 ^ 31"
  shows "to_int k = uint k"
proof -
  have "- (2 ^ 31) \<le> uint k"
    by (rule order_trans [of _ 0]) simp_all
  then show ?thesis
    using assms by (simp add: to_int_def signed_ucast_eq signed_take_bit_int_eq_self)
qed

lemma uint_and_mask:
  fixes k :: Key
  assumes "n \<le> 64"
  shows "uint (k AND mask n) = uint k mod 2 ^ n"
proof -
  have "uint (k AND mask n) = uint k AND mask n"
    using assms by (simp add: unsigned_and_eq uint_mask_eq min_absorb2)
  also have "\<dots> = take_bit n (uint k)"
    by (simp add: take_bit_eq_mask)
  finally show ?thesis
    by (simp add: take_bit_eq_mod)
qed

lemma mask_index:
  fixes k :: Key
  assumes "n \<le> 15"
  shows "to_int (k AND mask n) = uint k mod 2 ^ n"
proof -
  have u: "uint (k AND mask n) = uint k mod 2 ^ n"
    using assms by (intro uint_and_mask) simp
  have "uint k mod 2 ^ n < (2::int) ^ n"
    by simp
  also have "(2::int) ^ n \<le> 2 ^ 15"
    using assms by (intro power_increasing) simp_all
  finally have "uint (k AND mask n) < 2 ^ 31"
    using u by simp
  then show ?thesis
    using u by (simp add: to_int_small)
qed

lemma masks: "(511 :: Key) = mask 9" "(32767 :: Key) = mask 15"
  by (simp_all add: mask_eq_exp_minus_1)

text \<open>
  C6 (masking index functions): each function returns \<open>key & (SIZE - 1)\<close>, which equals
  \<open>key mod SIZE\<close>, with \<open>SIZE\<close> 512 for \<open>pawn_structure_index<Normal>\<close> and 32768
  otherwise; the result is at least 0 and less than \<open>SIZE\<close>; positions with the same key
  get the same index.
\<close>

theorem masking_index:
  "pawn_structure_index Normal pos = uint (pawn_key pos AND 511)
   \<and> pawn_structure_index Normal pos = uint (pawn_key pos) mod PAWN_HISTORY_SIZE
   \<and> 0 \<le> pawn_structure_index Normal pos
   \<and> pawn_structure_index Normal pos < PAWN_HISTORY_SIZE
   \<and> PAWN_HISTORY_SIZE = 2 ^ 9
   \<and> pawn_structure_index Correction pos = uint (pawn_key pos AND 32767)
   \<and> pawn_structure_index Correction pos = uint (pawn_key pos) mod CORRECTION_HISTORY_SIZE
   \<and> 0 \<le> pawn_structure_index Correction pos
   \<and> pawn_structure_index Correction pos < CORRECTION_HISTORY_SIZE
   \<and> CORRECTION_HISTORY_SIZE = 2 ^ 15
   \<and> minor_piece_index pos = uint (minor_piece_key pos AND 32767)
   \<and> minor_piece_index pos = uint (minor_piece_key pos) mod CORRECTION_HISTORY_SIZE
   \<and> 0 \<le> minor_piece_index pos
   \<and> minor_piece_index pos < CORRECTION_HISTORY_SIZE
   \<and> non_pawn_index c pos = uint (non_pawn_key pos c AND 32767)
   \<and> non_pawn_index c pos = uint (non_pawn_key pos c) mod CORRECTION_HISTORY_SIZE
   \<and> 0 \<le> non_pawn_index c pos
   \<and> non_pawn_index c pos < CORRECTION_HISTORY_SIZE
   \<and> (pawn_key pos' = pawn_key pos \<longrightarrow> pawn_structure_index T pos' = pawn_structure_index T pos)
   \<and> (minor_piece_key pos' = minor_piece_key pos \<longrightarrow> minor_piece_index pos' = minor_piece_index pos)
   \<and> (non_pawn_key pos' c = non_pawn_key pos c \<longrightarrow> non_pawn_index c pos' = non_pawn_index c pos)"
proof -
  have p: "pawn_structure_index Normal pos = uint (pawn_key pos) mod 2 ^ 9"
    using mask_index [of 9 "pawn_key pos"]
    by (simp add: pawn_structure_index_def PAWN_HISTORY_SIZE_def masks)
  have q: "pawn_structure_index Correction pos = uint (pawn_key pos) mod 2 ^ 15"
    using mask_index [of 15 "pawn_key pos"]
    by (simp add: pawn_structure_index_def CORRECTION_HISTORY_SIZE_def masks)
  have m: "minor_piece_index pos = uint (minor_piece_key pos) mod 2 ^ 15"
    using mask_index [of 15 "minor_piece_key pos"]
    by (simp add: minor_piece_index_def CORRECTION_HISTORY_SIZE_def masks)
  have n: "non_pawn_index c pos = uint (non_pawn_key pos c) mod 2 ^ 15"
    using mask_index [of 15 "non_pawn_key pos c"]
    by (simp add: non_pawn_index_def CORRECTION_HISTORY_SIZE_def masks)
  have s: "PAWN_HISTORY_SIZE = 2 ^ 9" "CORRECTION_HISTORY_SIZE = 2 ^ 15"
    by (simp_all add: PAWN_HISTORY_SIZE_def CORRECTION_HISTORY_SIZE_def)
  have stable: "pawn_key pos' = pawn_key pos \<longrightarrow>
      pawn_structure_index T pos' = pawn_structure_index T pos"
    "minor_piece_key pos' = minor_piece_key pos \<longrightarrow> minor_piece_index pos' = minor_piece_index pos"
    "non_pawn_key pos' c = non_pawn_key pos c \<longrightarrow> non_pawn_index c pos' = non_pawn_index c pos"
    by (simp_all add: pawn_structure_index_def minor_piece_index_def non_pawn_index_def)
  have a: "uint (pawn_key pos AND 511) = uint (pawn_key pos) mod 2 ^ 9"
    "uint (pawn_key pos AND 32767) = uint (pawn_key pos) mod 2 ^ 15"
    "uint (minor_piece_key pos AND 32767) = uint (minor_piece_key pos) mod 2 ^ 15"
    "uint (non_pawn_key pos c AND 32767) = uint (non_pawn_key pos c) mod 2 ^ 15"
    unfolding masks by (rule uint_and_mask, simp)+
  have r: "0 \<le> uint k mod 2 ^ n \<and> uint k mod 2 ^ n < 2 ^ n" for k :: Key and n
    by simp
  show ?thesis
    unfolding s using p q m n a stable r by (intro conjI) (simp_all only:)
qed

theorem masking_index_witness:
  "pawn_key \<lparr>pawn_key = 1000000, minor_piece_key = 77, non_pawn_key = (\<lambda>c. 5)\<rparr>
     = pawn_key \<lparr>pawn_key = 1000000, minor_piece_key = 12345678, non_pawn_key = (\<lambda>c. 9)\<rparr>
   \<and> pawn_structure_index Normal
         \<lparr>pawn_key = 1000000, minor_piece_key = 77, non_pawn_key = (\<lambda>c. 5)\<rparr>
     = pawn_structure_index Normal
         \<lparr>pawn_key = 1000000, minor_piece_key = 12345678, non_pawn_key = (\<lambda>c. 9)\<rparr>
   \<and> minor_piece_key \<lparr>pawn_key = 3, minor_piece_key = 12345678, non_pawn_key = (\<lambda>c. 5)\<rparr>
     = minor_piece_key \<lparr>pawn_key = 1000000, minor_piece_key = 12345678, non_pawn_key = (\<lambda>c. 9)\<rparr>
   \<and> minor_piece_index \<lparr>pawn_key = 3, minor_piece_key = 12345678, non_pawn_key = (\<lambda>c. 5)\<rparr>
     = minor_piece_index \<lparr>pawn_key = 1000000, minor_piece_key = 12345678, non_pawn_key = (\<lambda>c. 9)\<rparr>
   \<and> non_pawn_key \<lparr>pawn_key = 3, minor_piece_key = 77, non_pawn_key = (\<lambda>c. 9)\<rparr> BLACK
     = non_pawn_key \<lparr>pawn_key = 1000000, minor_piece_key = 12345678, non_pawn_key = (\<lambda>c. 9)\<rparr> BLACK
   \<and> non_pawn_index BLACK \<lparr>pawn_key = 3, minor_piece_key = 77, non_pawn_key = (\<lambda>c. 9)\<rparr>
     = non_pawn_index BLACK
         \<lparr>pawn_key = 1000000, minor_piece_key = 12345678, non_pawn_key = (\<lambda>c. 9)\<rparr>
   \<and> pawn_structure_index Normal
         \<lparr>pawn_key = 1000000, minor_piece_key = 12345678, non_pawn_key = (\<lambda>c. 9)\<rparr> = 64
   \<and> pawn_structure_index Correction
         \<lparr>pawn_key = 1000000, minor_piece_key = 12345678, non_pawn_key = (\<lambda>c. 9)\<rparr> = 16960"
proof -
  let ?p = "\<lparr>pawn_key = 1000000, minor_piece_key = 12345678, non_pawn_key = (\<lambda>c. 9)\<rparr>"
  let ?a = "\<lparr>pawn_key = 1000000, minor_piece_key = 77, non_pawn_key = (\<lambda>c. 5)\<rparr>"
  let ?b = "\<lparr>pawn_key = 3, minor_piece_key = 12345678, non_pawn_key = (\<lambda>c. 5)\<rparr>"
  let ?c = "\<lparr>pawn_key = 3, minor_piece_key = 77, non_pawn_key = (\<lambda>c. 9)\<rparr>"
  have h1: "pawn_key ?a = pawn_key ?p" by simp
  have h2: "minor_piece_key ?b = minor_piece_key ?p" by simp
  have h3: "non_pawn_key ?c BLACK = non_pawn_key ?p BLACK" by simp
  show ?thesis
    using h1 h2 h3
      masking_index [where pos = ?p and pos' = ?a and T = Normal and c = BLACK]
      masking_index [where pos = ?p and pos' = ?b and T = Normal and c = BLACK]
      masking_index [where pos = ?p and pos' = ?c and T = Normal and c = BLACK]
    by (simp add: PAWN_HISTORY_SIZE_def CORRECTION_HISTORY_SIZE_def)
qed

section \<open>The knight attack index\<close>

lemma knight_attack_index_range:
  assumes "from_sq < 64"
  shows "\<exists>i. knight_attack_index target from_sq = Some i \<and> 0 \<le> i \<and> i < 256"
proof -
  define w where "w = target * KnightMagic ! from_sq"
  have "uint (drop_bit 56 w) = uint w div 2 ^ 56"
    by (simp add: drop_bit_eq_div uint_div_distrib)
  moreover have "uint w < 2 ^ 64"
    using uint_lt2p [of w] by simp
  ultimately have b: "uint (drop_bit 56 w) < 256"
    by simp
  then have "to_int (drop_bit 56 w) = uint (drop_bit 56 w)"
    by (intro to_int_small) simp
  then show ?thesis
    using assms b by (simp add: knight_attack_index_def w_def)
qed

text \<open>
  C2 (perfect hash per origin square): the source announces the index as collision-free,
  but for the origin square 18 (c3) the empty subset and the full knight-attack set
  (the eight destinations b1, d1, a2, e2, a4, e4, b5, d5) are two distinct subsets of the
  attack set with the same index 0. The full attack set, which is not empty, has the
  index of the empty subset for each of the origin squares 19 .. 21, 26 .. 29 and
  34 .. 37 as well.
\<close>

theorem knight_attack_index_collision:
  "knight_attacks_bb 18 = 43234889994
   \<and> subset_bb 0 (knight_attacks_bb 18)
   \<and> subset_bb 43234889994 (knight_attacks_bb 18)
   \<and> (0 :: Bitboard) \<noteq> 43234889994
   \<and> knight_attack_index 0 18 = Some 0
   \<and> knight_attack_index 43234889994 18 = Some 0
   \<and> knight_attacks_bb 19 \<noteq> 0 \<and> knight_attack_index (knight_attacks_bb 19) 19 = knight_attack_index 0 19
   \<and> knight_attacks_bb 20 \<noteq> 0 \<and> knight_attack_index (knight_attacks_bb 20) 20 = knight_attack_index 0 20
   \<and> knight_attacks_bb 21 \<noteq> 0 \<and> knight_attack_index (knight_attacks_bb 21) 21 = knight_attack_index 0 21
   \<and> knight_attacks_bb 26 \<noteq> 0 \<and> knight_attack_index (knight_attacks_bb 26) 26 = knight_attack_index 0 26
   \<and> knight_attacks_bb 27 \<noteq> 0 \<and> knight_attack_index (knight_attacks_bb 27) 27 = knight_attack_index 0 27
   \<and> knight_attacks_bb 28 \<noteq> 0 \<and> knight_attack_index (knight_attacks_bb 28) 28 = knight_attack_index 0 28
   \<and> knight_attacks_bb 29 \<noteq> 0 \<and> knight_attack_index (knight_attacks_bb 29) 29 = knight_attack_index 0 29
   \<and> knight_attacks_bb 34 \<noteq> 0 \<and> knight_attack_index (knight_attacks_bb 34) 34 = knight_attack_index 0 34
   \<and> knight_attacks_bb 35 \<noteq> 0 \<and> knight_attack_index (knight_attacks_bb 35) 35 = knight_attack_index 0 35
   \<and> knight_attacks_bb 36 \<noteq> 0 \<and> knight_attack_index (knight_attacks_bb 36) 36 = knight_attack_index 0 36
   \<and> knight_attacks_bb 37 \<noteq> 0 \<and> knight_attack_index (knight_attacks_bb 37) 37 = knight_attack_index 0 37"
  by (simp add: knight_attack_index_def KnightMagic_def to_int_def subset_bb_def
      knight_attacks_bb_def knight_destinations_def knight_steps_def on_board_def square_bb_def)

section \<open>Properties of the tables\<close>

lemma offset_less: "in_bounds ns cs \<Longrightarrow> offset ns cs < prod_list ns"
proof (induction ns cs rule: in_bounds.induct)
  case (2 n ns c cs)
  then have o: "offset ns cs < prod_list ns" and c: "Suc c \<le> n"
    by simp_all
  have "c * prod_list ns + offset ns cs < Suc c * prod_list ns"
    using o by simp
  also have "\<dots> \<le> n * prod_list ns"
    using c by (rule mult_le_mono1)
  finally show ?case by simp
qed simp_all

lemma offset_inj:
  "in_bounds ns cs \<Longrightarrow> in_bounds ns cs' \<Longrightarrow> offset ns cs = offset ns cs' \<Longrightarrow> cs = cs'"
proof (induction ns cs arbitrary: cs' rule: in_bounds.induct)
  case (2 n ns c cs)
  then obtain c' ds where cs': "cs' = c' # ds"
    by (cases cs') simp_all
  let ?P = "prod_list ns"
  have b: "offset ns cs < ?P" "offset ns ds < ?P"
    using "2.prems" cs' by (simp_all add: offset_less)
  have eq: "c * ?P + offset ns cs = c' * ?P + offset ns ds"
    using "2.prems" cs' by simp
  have "(c * ?P + offset ns cs) div ?P = c" "(c' * ?P + offset ns ds) div ?P = c'"
    using b by simp_all
  then have cc: "c = c'"
    using eq by simp
  then have "offset ns cs = offset ns ds"
    using eq by simp
  then have "cs = ds"
    using "2.IH" [of ds] "2.prems" cs' by simp
  then show ?case
    using cc cs' by simp
qed (auto elim: in_bounds.elims)

lemma set_all_coords: "cs \<in> set (all_coords ns) \<longleftrightarrow> in_bounds ns cs"
proof (induction ns arbitrary: cs)
  case Nil
  show ?case by (cases cs) simp_all
next
  case (Cons n ns)
  show ?case
  proof (cases cs)
    case Nil
    then show ?thesis by auto
  next
    case (Cons c ds)
    have "c # ds \<in> set (all_coords (n # ns)) \<longleftrightarrow> c < n \<and> ds \<in> set (all_coords ns)"
      by (auto simp: image_iff)
    then show ?thesis
      using Cons Cons.IH [of ds] by simp
  qed
qed

lemma assign_at_Some:
  assumes "allocated t" "in_bounds (sizes t) cs"
  shows "\<exists>t'. assign_at t cs v = Some t' \<and> allocated t' \<and> sizes t' = sizes t
           \<and> (\<forall>cs'. in_bounds (sizes t) cs' \<longrightarrow>
                 read_at t' cs' = (if cs' = cs then Some v else read_at t cs'))"
proof -
  let ?t' = "t\<lparr>cells := (cells t)[offset (sizes t) cs := operator_assign (cells t ! offset (sizes t) cs) v]\<rparr>"
  have a: "assign_at t cs v = Some ?t'"
    using assms(2) by (simp add: assign_at_def cell_at_def)
  have r: "read_at ?t' cs' = (if cs' = cs then Some v else read_at t cs')"
    if b: "in_bounds (sizes t) cs'" for cs'
  proof (cases "cs' = cs")
    case True
    then show ?thesis
      using assms offset_less [OF assms(2)]
      by (simp add: read_at_def cell_at_def allocated_def operator_T_def operator_assign_def)
  next
    case False
    then have "offset (sizes t) cs \<noteq> offset (sizes t) cs'"
      using offset_inj [OF assms(2) b] by auto
    then show ?thesis
      using False b by (simp add: read_at_def cell_at_def)
  qed
  show ?thesis
    using a r assms(1) by (simp add: allocated_def)
qed

lemma write_all_reads:
  assumes "allocated t" "\<forall>cs \<in> set css. in_bounds (sizes t) cs"
  shows "\<exists>t'. write_all f css t = Some t' \<and> allocated t' \<and> sizes t' = sizes t
           \<and> (\<forall>cs. in_bounds (sizes t) cs \<longrightarrow>
                 read_at t' cs = (if cs \<in> set css then Some (f cs) else read_at t cs))"
  using assms
proof (induction css arbitrary: t)
  case Nil
  then show ?case by simp
next
  case (Cons ds css)
  obtain t1 where t1: "assign_at t ds (f ds) = Some t1" "allocated t1" "sizes t1 = sizes t"
    and r1: "\<And>cs. in_bounds (sizes t) cs \<Longrightarrow>
               read_at t1 cs = (if cs = ds then Some (f ds) else read_at t cs)"
    using assign_at_Some [of t ds "f ds"] Cons.prems by auto
  obtain t' where t': "write_all f css t1 = Some t'" "allocated t'" "sizes t' = sizes t1"
    and r': "\<And>cs. in_bounds (sizes t1) cs \<Longrightarrow>
               read_at t' cs = (if cs \<in> set css then Some (f cs) else read_at t1 cs)"
    using Cons.IH [of t1] t1 Cons.prems by auto
  have "read_at t' cs = (if cs \<in> set (ds # css) then Some (f cs) else read_at t cs)"
    if "in_bounds (sizes t) cs" for cs
    using r' [of cs] r1 [of cs] that t1(3) by auto
  then show ?case
    using t1 t' by simp
qed

text \<open>
  C7 (table indexing round-trip): in an allocated table, writing \<open>f cs\<close> at every
  coordinate tuple \<open>cs\<close> within bounds and then reading the cell at any such tuple gives
  the value written at that tuple; two distinct tuples within bounds address distinct
  cells, and a single write at one tuple is read back there and leaves the cell at any
  other tuple as it was.
\<close>

theorem table_round_trip:
  assumes "allocated t" and "in_bounds (sizes t) cs"
  shows "(\<exists>t'. write_all f (all_coords (sizes t)) t = Some t' \<and> read_at t' cs = Some (f cs))
       \<and> (\<exists>t'. assign_at t cs v = Some t' \<and> read_at t' cs = Some v
             \<and> (in_bounds (sizes t) cs' \<and> cs' \<noteq> cs \<longrightarrow>
                  offset (sizes t) cs' \<noteq> offset (sizes t) cs
                  \<and> read_at t' cs' = read_at t cs'))"
proof -
  have "\<forall>ds \<in> set (all_coords (sizes t)). in_bounds (sizes t) ds"
    by (simp add: set_all_coords)
  then have 1: "\<exists>t'. write_all f (all_coords (sizes t)) t = Some t' \<and> read_at t' cs = Some (f cs)"
    using write_all_reads [OF assms(1), of "all_coords (sizes t)" f] assms(2)
    by (auto simp: set_all_coords)
  have 2: "offset (sizes t) cs' \<noteq> offset (sizes t) cs"
    if "in_bounds (sizes t) cs'" "cs' \<noteq> cs"
    using offset_inj [OF that(1) assms(2)] that(2) by auto
  show ?thesis
    using 1 2 assign_at_Some [OF assms, of v] assms(2) by auto
qed

theorem table_round_trip_witness:
  "allocated \<lparr>sizes = [2, 3], cells = replicate 6 \<lparr>entry = 0\<rparr>\<rparr>
   \<and> in_bounds [2, 3] [1, 2] \<and> in_bounds [2, 3] [0, 1] \<and> [0, 1] \<noteq> [1, 2 :: nat]
   \<and> (\<exists>t'. write_all (\<lambda>cs. word_of_nat (100 + offset [2, 3] cs))
               (all_coords [2, 3]) \<lparr>sizes = [2, 3], cells = replicate 6 \<lparr>entry = 0\<rparr>\<rparr> = Some t'
            \<and> read_at t' [1, 2] = Some 105)
   \<and> (\<exists>t'. assign_at \<lparr>sizes = [2, 3], cells = replicate 6 \<lparr>entry = 0\<rparr>\<rparr> [1, 2] 7 = Some t'
            \<and> read_at t' [1, 2] = Some 7
            \<and> offset [2, 3] [0, 1] \<noteq> offset [2, 3] [1, 2]
            \<and> read_at t' [0, 1] = Some 0)"
proof -
  let ?t = "\<lparr>sizes = [2, 3], cells = replicate 6 \<lparr>entry = 0\<rparr>\<rparr>"
  have h1: "allocated ?t" by (simp add: allocated_def)
  have h2: "in_bounds (sizes ?t) [1, 2]" by simp
  have h3: "in_bounds (sizes ?t) [0, 1] \<and> [0, 1] \<noteq> [1, 2 :: nat]" by simp
  have r: "read_at ?t [0, 1] = Some 0"
    by (simp add: read_at_def cell_at_def operator_T_def)
  show ?thesis
    using h1 h2 h3 r
      table_round_trip [OF h1 h2, where f = "\<lambda>cs. word_of_nat (100 + offset [2, 3] cs)"
        and v = 7 and cs' = "[0, 1]"]
    by simp
qed

text \<open>
  C8 (zero initialisation at allocation): a freshly constructed table holds one cell for
  each coordinate tuple within its sizes, and before any update or assignment the cell at
  every such tuple, hence every cell of the table, reads as zero through the counter's
  conversion operator.
\<close>

theorem fresh_table_reads_zero:
  assumes "in_bounds ns cs"
  shows "allocated (construct ns)
       \<and> sizes (construct ns) = ns
       \<and> read_at (construct ns) cs = Some 0
       \<and> map operator_T (cells (construct ns)) = replicate (prod_list ns) 0"
proof -
  have "offset ns cs < prod_list ns"
    using assms by (rule offset_less)
  then have "read_at (construct ns) cs = Some 0"
    using assms by (simp add: read_at_def cell_at_def construct_def operator_T_def)
  moreover have "map operator_T (cells (construct ns)) = replicate (prod_list ns) 0"
    by (simp add: construct_def operator_T_def)
  ultimately show ?thesis
    by (simp add: allocated_def construct_def)
qed

theorem fresh_table_reads_zero_witness:
  "in_bounds [2, 3] [1, 2]
   \<and> allocated (construct [2, 3])
   \<and> read_at (construct [2, 3]) [1, 2] = Some 0
   \<and> map operator_T (cells (construct [2, 3])) = [0, 0, 0, 0, 0, 0]"
proof -
  have h: "in_bounds [2, 3] [1, 2]" by simp
  have n: "replicate (prod_list [2, 3]) (0 :: int16_t) = [0, 0, 0, 0, 0, 0]"
    by (simp add: numeral_eq_Suc)
  show ?thesis
    using h n fresh_table_reads_zero [OF h] by simp
qed

end
